theory Spec2Isabelle
  imports Main
begin

section \<open>The initiative tracker of \<^verbatim>\<open>src/index.js\<close>\<close>

text \<open>
  The class \<^verbatim>\<open>Tracker\<close> keeps one JSON document \<^verbatim>\<open>{round, turn, characters}\<close> in a lowdb
  database. lowdb 1.x (the version that ships \<^verbatim>\<open>lowdb/adapters/FileSync\<close>) is a lodash
  chain over that document: \<^verbatim>\<open>db.get(p).f(a, b).value()\<close> computes \<^verbatim>\<open>_.f(doc[p], a, b)\<close>, and
  \<^verbatim>\<open>.write()\<close> is \<^verbatim>\<open>.value()\<close> followed by saving the document. Every method of the class
  is synchronous, so the document is modelled as a record that each method takes and
  returns.

  JavaScript numbers are modelled as \<open>int\<close> (initiative rolls, dexterity scores, the
  round and the turn index are whole numbers in every use of the tracker), strings as
  \<open>string\<close>.
\<close>

subsection \<open>Data\<close>

text \<open>
  A character is the object \<^verbatim>\<open>{ userID, name, initiative, dexterity }\<close> pushed by
  \<^verbatim>\<open>addCharacter\<close> (line 122).
\<close>

record character =
  userID :: string
  name :: string
  initiative :: int
  dexterity :: int

text \<open>The document, with the defaults written by the constructor (lines 18-22).\<close>

record tracker =
  round :: int
  turn :: int
  characters :: "character list"

definition defaults :: tracker where
  "defaults = \<lparr>round = 0, turn = 0, characters = []\<rparr>"

text \<open>
  The two strings the class throws: \<^verbatim>\<open>"Character does not exist!"\<close> is \<open>NotFoundError\<close>,
  \<^verbatim>\<open>"Character already exists!"\<close> is \<open>DuplicateError\<close>.
\<close>

datatype error = NotFoundError | DuplicateError

text \<open>
  A mutator returns what it raised (\<open>Inl\<close>) or that it completed (\<open>Inr ()\<close>), together
  with the document as it stands afterwards. The document outlives a \<^verbatim>\<open>throw\<close>, so the
  state after a failure is part of the result.
\<close>

type_synonym outcome = "(error + unit) \<times> tracker"

subsection \<open>The lodash functions the class calls\<close>

text \<open>
  \<^verbatim>\<open>_.matches(source)(object)\<close>: every property of \<open>source\<close> is present in \<open>object\<close> with an
  equal value. The class only matches on one property (\<^verbatim>\<open>{ name: name }\<close>,
  \<^verbatim>\<open>{ userID: userID }\<close>) or, inside \<^verbatim>\<open>orderBy\<close>, on a whole character.
\<close>

definition matches :: "character \<Rightarrow> character \<Rightarrow> bool" where
  "matches source object =
     (userID object = userID source \<and> name object = name source
      \<and> initiative object = initiative source \<and> dexterity object = dexterity source)"

definition matches_name :: "string \<Rightarrow> character \<Rightarrow> bool" where
  "matches_name n object = (name object = n)"

text \<open>\<^verbatim>\<open>_.find(array, predicate)\<close>: the first element that satisfies it, or \<^verbatim>\<open>undefined\<close>.\<close>

fun find_first :: "('a \<Rightarrow> bool) \<Rightarrow> 'a list \<Rightarrow> 'a option" where
  "find_first P [] = None"
| "find_first P (x # xs) = (if P x then Some x else find_first P xs)"

text \<open>\<^verbatim>\<open>_.findIndex(array, predicate)\<close>: the index of the first such element, or \<open>-1\<close>.\<close>

fun findIndex :: "('a \<Rightarrow> bool) \<Rightarrow> 'a list \<Rightarrow> int" where
  "findIndex P [] = - 1"
| "findIndex P (x # xs) =
     (if P x then 0
      else (let r = findIndex P xs in if r < 0 then - 1 else r + 1))"

text \<open>
  \<^verbatim>\<open>_.remove(array, predicate)\<close> removes from the array \<^emph>\<open>every\<close> element that satisfies
  the predicate and keeps the others in order.
\<close>

fun remove_all :: "('a \<Rightarrow> bool) \<Rightarrow> 'a list \<Rightarrow> 'a list" where
  "remove_all P [] = []"
| "remove_all P (x # xs) = (if P x then remove_all P xs else x # remove_all P xs)"

text \<open>
  \<^verbatim>\<open>.find(predicate).assign(props)\<close> overwrites the properties of the first element that
  satisfies the predicate, in place; \<open>f\<close> is the overwrite.
\<close>

fun assign_first :: "('a \<Rightarrow> bool) \<Rightarrow> ('a \<Rightarrow> 'a) \<Rightarrow> 'a list \<Rightarrow> 'a list" where
  "assign_first P f [] = []"
| "assign_first P f (x # xs) = (if P x then f x # xs else x # assign_first P f xs)"

subsubsection \<open>\<^verbatim>\<open>_.orderBy\<close>\<close>

text \<open>
  lodash 4:
  \<^verbatim>\<open>
  function orderBy(collection, iteratees, orders, guard) {
    if (collection == null) return [];
    if (!isArray(iteratees)) iteratees = iteratees == null ? [] : [iteratees];
    orders = guard ? undefined : orders;
    if (!isArray(orders)) orders = orders == null ? [] : [orders];
    return baseOrderBy(collection, iteratees, orders);
  }
  function baseOrderBy(collection, iteratees, orders) {
    var index = -1;
    iteratees = arrayMap(iteratees.length ? iteratees : [identity], baseUnary(getIteratee()));
    var result = baseMap(collection, function(value, key, collection) {
      var criteria = arrayMap(iteratees, function(iteratee) { return iteratee(value); });
      return { 'criteria': criteria, 'index': ++index, 'value': value };
    });
    return baseSortBy(result, function(object, other) {
      return compareMultiple(object, other, orders);
    });
  }
  function compareMultiple(object, other, orders) {
    var index = -1, objCriteria = object.criteria, othCriteria = other.criteria,
        length = objCriteria.length, ordersLength = orders.length;
    while (++index < length) {
      var result = compareAscending(objCriteria[index], othCriteria[index]);
      if (result) {
        if (index >= ordersLength) return result;
        var order = orders[index];
        return result * (order == 'desc' ? -1 : 1);
      }
    }
    return object.index - other.index;
  }
  \<close>
  \<^verbatim>\<open>getIteratee()\<close> turns an iteratee that is a plain object into \<^verbatim>\<open>_.matches\<close> of that
  object, so the criterion it yields is a boolean; \<^verbatim>\<open>identity\<close> yields the element itself.
\<close>

datatype iteratee = Identity | Matches character

datatype criterion = CBool bool | CObj character

fun apply_iteratee :: "iteratee \<Rightarrow> character \<Rightarrow> criterion" where
  "apply_iteratee Identity v = CObj v"
| "apply_iteratee (Matches source) v = CBool (matches source v)"

text \<open>
  \<^verbatim>\<open>compareAscending(value, other)\<close> is \<open>1\<close> when \<^verbatim>\<open>value > other\<close>, \<open>-1\<close> when
  \<^verbatim>\<open>value < other\<close> and \<open>0\<close> otherwise. On booleans \<^verbatim>\<open>true > false\<close>; two plain objects are
  neither \<^verbatim>\<open><\<close> nor \<^verbatim>\<open>>\<close> (both convert to the same string), and an object against a
  boolean converts to \<^verbatim>\<open>NaN\<close>, which compares false both ways.
\<close>

fun compareAscending :: "criterion \<Rightarrow> criterion \<Rightarrow> int" where
  "compareAscending (CBool a) (CBool b) =
     (if a \<and> \<not> b then 1 else if \<not> a \<and> b then - 1 else 0)"
| "compareAscending _ _ = 0"

text \<open>The object \<^verbatim>\<open>{ criteria, index, value }\<close> that \<^verbatim>\<open>baseOrderBy\<close> sorts.\<close>

record sort_entry =
  criteria :: "criterion list"
  index :: int
  val :: character

text \<open>
  The \<^verbatim>\<open>while\<close> loop of \<^verbatim>\<open>compareMultiple\<close>, over the two criteria arrays side by side (they
  have one entry per iteratee, so the same length) and the orders from position
  \<^verbatim>\<open>index\<close> on: an exhausted \<open>orders\<close> is \<^verbatim>\<open>index >= ordersLength\<close>. \<open>None\<close> is the loop
  running to its end.
\<close>

fun compareMultiple_loop :: "(criterion \<times> criterion) list \<Rightarrow> string list \<Rightarrow> int option" where
  "compareMultiple_loop [] orders = None"
| "compareMultiple_loop ((c, d) # rest) orders =
     (let result = compareAscending c d in
      if result \<noteq> 0 then
        (case orders of
           [] \<Rightarrow> Some result
         | order # _ \<Rightarrow> Some (result * (if order = ''desc'' then - 1 else 1)))
      else compareMultiple_loop rest (tl orders))"

definition compareMultiple :: "sort_entry \<Rightarrow> sort_entry \<Rightarrow> string list \<Rightarrow> int" where
  "compareMultiple object other orders =
     (case compareMultiple_loop (zip (criteria object) (criteria other)) orders of
        Some result \<Rightarrow> result
      | None \<Rightarrow> index object - index other)"

text \<open>
  \<^verbatim>\<open>baseSortBy(array, comparer)\<close> is \<^verbatim>\<open>array.sort(comparer)\<close> followed by taking each
  entry's \<^verbatim>\<open>value\<close>. The comparer never answers \<open>0\<close> for two different entries (the last
  resort is the difference of their indices), so the sorted array is the same whatever
  algorithm the engine runs; insertion from the right is used here.
\<close>

fun insert_by :: "('a \<Rightarrow> 'a \<Rightarrow> int) \<Rightarrow> 'a \<Rightarrow> 'a list \<Rightarrow> 'a list" where
  "insert_by comparer x [] = [x]"
| "insert_by comparer x (y # ys) =
     (if comparer x y \<le> 0 then x # y # ys else y # insert_by comparer x ys)"

fun array_sort :: "('a \<Rightarrow> 'a \<Rightarrow> int) \<Rightarrow> 'a list \<Rightarrow> 'a list" where
  "array_sort comparer [] = []"
| "array_sort comparer (x # xs) = insert_by comparer x (array_sort comparer xs)"

definition baseSortBy :: "sort_entry list \<Rightarrow> (sort_entry \<Rightarrow> sort_entry \<Rightarrow> int) \<Rightarrow> character list" where
  "baseSortBy array comparer = map val (array_sort comparer array)"

text \<open>\<^verbatim>\<open>baseMap\<close> with the running \<^verbatim>\<open>++index\<close>: the entries of the elements from index \<open>i\<close> on.\<close>

fun entries_from :: "iteratee list \<Rightarrow> int \<Rightarrow> character list \<Rightarrow> sort_entry list" where
  "entries_from its i [] = []"
| "entries_from its i (v # vs) =
     \<lparr>criteria = map (\<lambda>it. apply_iteratee it v) its, index = i, val = v\<rparr>
       # entries_from its (i + 1) vs"

definition baseOrderBy :: "character list \<Rightarrow> character list \<Rightarrow> string list \<Rightarrow> character list" where
  "baseOrderBy collection iteratees orders =
     (let its = (if iteratees = [] then [Identity] else map Matches iteratees);
          result = entries_from its 0 collection
      in baseSortBy result (\<lambda>object other. compareMultiple object other orders))"

text \<open>
  \<open>orderBy\<close> for the arguments the class passes: an array of characters as \<open>iteratees\<close>, an
  array of strings as \<open>orders\<close>, and a fourth argument \<open>guard\<close> that is absent (\<open>None\<close>) or
  an array (any array is truthy).
\<close>

definition orderBy :: "character list \<Rightarrow> character list \<Rightarrow> string list \<Rightarrow> string list option
    \<Rightarrow> character list" where
  "orderBy collection iteratees orders guard =
     baseOrderBy collection iteratees (case guard of Some _ \<Rightarrow> [] | None \<Rightarrow> orders)"

subsection \<open>The methods of \<^verbatim>\<open>Tracker\<close>\<close>

text \<open>Line 37: \<^verbatim>\<open>characterCount\<close>.\<close>

definition characterCount :: "tracker \<Rightarrow> int" where
  "characterCount s = int (length (characters s))"

text \<open>Lines 203-205: \<^verbatim>\<open>!!this.db.get("characters").find({ name: name }).value()\<close>.\<close>

definition characterExists :: "tracker \<Rightarrow> string \<Rightarrow> bool" where
  "characterExists s n = (find_first (matches_name n) (characters s) \<noteq> None)"

text \<open>Lines 107-110.\<close>

definition getCharacterIndex :: "tracker \<Rightarrow> string \<Rightarrow> error + int" where
  "getCharacterIndex s n =
     (if \<not> characterExists s n then Inl NotFoundError
      else Inr (findIndex (matches_name n) (characters s)))"

text \<open>Lines 119-123.\<close>

definition addCharacter :: "string \<Rightarrow> string \<Rightarrow> int \<Rightarrow> int \<Rightarrow> tracker \<Rightarrow> outcome" where
  "addCharacter uid n ini dex s =
     (if characterExists s n then (Inl DuplicateError, s)
      else (Inr (), s\<lparr>characters := characters s
              @ [\<lparr>userID = uid, name = n, initiative = ini, dexterity = dex\<rparr>]\<rparr>))"

text \<open>Lines 131-135.\<close>

definition editCharacter :: "string \<Rightarrow> string \<Rightarrow> int \<Rightarrow> int \<Rightarrow> tracker \<Rightarrow> outcome" where
  "editCharacter n newname ini dex s =
     (if \<not> characterExists s n then (Inl NotFoundError, s)
      else (Inr (), s\<lparr>characters := assign_first (matches_name n)
              (\<lambda>c. c\<lparr>name := newname, initiative := ini, dexterity := dex\<rparr>) (characters s)\<rparr>))"

text \<open>
  Lines 141-158. The three branches keep the order of the source: the comparison with
  \<^verbatim>\<open>size() - 1\<close> is made before the removal, the decrement of \<^verbatim>\<open>turn\<close> after it.
\<close>

definition removeCharacter :: "string \<Rightarrow> tracker \<Rightarrow> outcome" where
  "removeCharacter n s =
     (if \<not> characterExists s n then (Inl NotFoundError, s)
      else
        (case getCharacterIndex s n of
           Inl e \<Rightarrow> (Inl e, s)
         | Inr foundIndex \<Rightarrow>
             if foundIndex < turn s then
               (let s1 = s\<lparr>characters := remove_all (matches_name n) (characters s)\<rparr>
                in (Inr (), s1\<lparr>turn := turn s1 - 1\<rparr>))
             else if foundIndex = turn s then
               (let s1 = (if foundIndex = characterCount s - 1
                          then (s\<lparr>round := round s + 1\<rparr>)\<lparr>turn := 0\<rparr> else s)
                in (Inr (), s1\<lparr>characters := remove_all (matches_name n) (characters s1)\<rparr>))
             else (Inr (), s\<lparr>characters := remove_all (matches_name n) (characters s)\<rparr>)))"

text \<open>
  Lines 192-194. The call is made on the chain \<^verbatim>\<open>this.db.get("characters")\<close>, which supplies
  the collection, so the three arguments written in the source arrive as \<open>iteratees\<close>,
  \<open>orders\<close> and \<open>guard\<close>:
  \<^verbatim>\<open>_.orderBy(characters, characters, ['initiative', 'dexterity'], ['desc', 'desc'])\<close>.
\<close>

definition sortTracker :: "tracker \<Rightarrow> tracker" where
  "sortTracker s =
     s\<lparr>characters := orderBy (characters s) (characters s)
          [''initiative'', ''dexterity''] (Some [''desc'', ''desc''])\<rparr>"

text \<open>Lines 176-183.\<close>

definition nextTurn :: "tracker \<Rightarrow> tracker" where
  "nextTurn s =
     (if turn s < characterCount s - 1 then s\<lparr>turn := turn s + 1\<rparr>
      else sortTracker ((s\<lparr>turn := 0\<rparr>)\<lparr>round := round s + 1\<rparr>))"

text \<open>Lines 186-189.\<close>

definition startCombat :: "tracker \<Rightarrow> tracker" where
  "startCombat s = (s\<lparr>round := 1\<rparr>)\<lparr>turn := 0\<rparr>"

text \<open>Lines 197-201.\<close>

definition reset :: "bool \<Rightarrow> tracker \<Rightarrow> tracker" where
  "reset wipe s =
     (let s1 = (if wipe then s\<lparr>characters := []\<rparr> else s)
      in (s1\<lparr>round := 0\<rparr>)\<lparr>turn := 0\<rparr>)"

text \<open>Lines 77-87: the two setters.\<close>

definition turnIndex :: "int \<Rightarrow> tracker \<Rightarrow> tracker" where
  "turnIndex i s = s\<lparr>turn := i\<rparr>"

definition roundIndex :: "int \<Rightarrow> tracker \<Rightarrow> tracker" where
  "roundIndex i s = s\<lparr>round := i\<rparr>"

subsection \<open>Sequences of calls\<close>

text \<open>
  One constructor per mutating method, with its arguments; \<open>run\<close> makes the call. A
  sequence of calls is run from left to right; a call that throws leaves the document to
  the next call as the throw left it.
\<close>

datatype call =
    AddCharacter string string int int
  | EditCharacter string string int int
  | RemoveCharacter string
  | NextTurn
  | StartCombat
  | SortTracker
  | Reset bool
  | SetTurn int
  | SetRound int

fun run :: "call \<Rightarrow> tracker \<Rightarrow> outcome" where
  "run (AddCharacter uid n ini dex) s = addCharacter uid n ini dex s"
| "run (EditCharacter n newname ini dex) s = editCharacter n newname ini dex s"
| "run (RemoveCharacter n) s = removeCharacter n s"
| "run NextTurn s = (Inr (), nextTurn s)"
| "run StartCombat s = (Inr (), startCombat s)"
| "run SortTracker s = (Inr (), sortTracker s)"
| "run (Reset wipe) s = (Inr (), reset wipe s)"
| "run (SetTurn i) s = (Inr (), turnIndex i s)"
| "run (SetRound i) s = (Inr (), roundIndex i s)"

fun run_all :: "call list \<Rightarrow> tracker \<Rightarrow> tracker" where
  "run_all [] s = s"
| "run_all (c # cs) s = run_all cs (snd (run c s))"

fun escape_hatch :: "call \<Rightarrow> bool" where
  "escape_hatch (SetTurn _) = True"
| "escape_hatch (SetRound _) = True"
| "escape_hatch _ = False"

subsection \<open>What the claims speak of\<close>

text \<open>
  A roster in turn order: initiative descending, and dexterity descending among equal
  initiatives.
\<close>

definition goes_before :: "character \<Rightarrow> character \<Rightarrow> bool" where
  "goes_before a b =
     (initiative b < initiative a \<or> (initiative a = initiative b \<and> dexterity b \<le> dexterity a))"

definition in_turn_order :: "character list \<Rightarrow> bool" where
  "in_turn_order xs = sorted_wrt goes_before xs"

text \<open>The roster without the element at position \<open>i\<close>.\<close>

definition remove_at :: "nat \<Rightarrow> 'a list \<Rightarrow> 'a list" where
  "remove_at i xs = take i xs @ drop (Suc i) xs"

text \<open>Exactly one character of the roster has the name.\<close>

definition held_once :: "string \<Rightarrow> character list \<Rightarrow> bool" where
  "held_once n xs = (length (filter (matches_name n) xs) = 1)"

text \<open>
  An \<^verbatim>\<open>editCharacter\<close> call that gives a character a name that another character of the
  roster holds.
\<close>

fun edit_collides :: "call \<Rightarrow> tracker \<Rightarrow> bool" where
  "edit_collides (EditCharacter n newname ini dex) s = (newname \<noteq> n \<and> characterExists s newname)"
| "edit_collides _ s = False"

text \<open>
  The states reached from the defaults by calls other than the two setters, none of them
  an edit onto a name in use.
\<close>

inductive reachable :: "tracker \<Rightarrow> bool" where
  start: "reachable defaults"
| step: "reachable s \<Longrightarrow> \<not> escape_hatch c \<Longrightarrow> \<not> edit_collides c s \<Longrightarrow> reachable (snd (run c s))"

definition turn_in_range :: "tracker \<Rightarrow> bool" where
  "turn_in_range s = (0 \<le> turn s \<and> (turn s < characterCount s \<or> turn s = 0))"

text \<open>Names pairwise different and the turn index in range.\<close>

definition well_formed :: "tracker \<Rightarrow> bool" where
  "well_formed s = (distinct (map name (characters s)) \<and> turn_in_range s)"

subsection \<open>Example rosters\<close>

definition ann :: character where
  "ann = \<lparr>userID = ''u1'', name = ''Ann'', initiative = 20, dexterity = 12\<rparr>"

definition bob :: character where
  "bob = \<lparr>userID = ''u2'', name = ''Bob'', initiative = 15, dexterity = 14\<rparr>"

definition cat :: character where
  "cat = \<lparr>userID = ''u3'', name = ''Cat'', initiative = 15, dexterity = 10\<rparr>"

definition dan :: character where
  "dan = \<lparr>userID = ''u4'', name = ''Dan'', initiative = 8, dexterity = 16\<rparr>"

text \<open>Eve rolled what Bob rolled and has his dexterity.\<close>

definition eve :: character where
  "eve = \<lparr>userID = ''u5'', name = ''Eve'', initiative = 15, dexterity = 14\<rparr>"

text \<open>Dan after \<^verbatim>\<open>editCharacter("Dan", "Bob", 8, 16)\<close>: a second character named Bob.\<close>

definition dan_as_bob :: character where
  "dan_as_bob = \<lparr>userID = ''u4'', name = ''Bob'', initiative = 8, dexterity = 16\<rparr>"

lemmas examples = ann_def bob_def cat_def dan_def eve_def dan_as_bob_def

section \<open>Properties\<close>

subsection \<open>What \<^verbatim>\<open>sortTracker\<close> computes\<close>

lemma matches_iff: "matches s c \<longleftrightarrow> s = c"
  by (cases s; cases c) (auto simp: matches_def)

text \<open>
  Two different characters \<open>x\<close> and \<open>y\<close>, with \<open>x\<close> the first of them among the iteratees:
  the criteria agree (both \<^verbatim>\<open>false\<close>) up to the position of \<open>x\<close>, where \<open>x\<close> has \<^verbatim>\<open>true\<close>
  and \<open>y\<close> has \<^verbatim>\<open>false\<close>; with no orders left the loop answers \<open>1\<close>.
\<close>

lemma loop_first_wins:
  "x \<notin> set pre \<Longrightarrow> y \<notin> set pre \<Longrightarrow> y \<noteq> x \<Longrightarrow>
   compareMultiple_loop
     (zip (map (\<lambda>it. apply_iteratee it x) (map Matches (pre @ x # post)))
          (map (\<lambda>it. apply_iteratee it y) (map Matches (pre @ x # post)))) [] = Some 1"
  by (induction pre) (auto simp: matches_iff)

lemma insert_by_last:
  "\<forall>y \<in> set ys. 0 < comparer x y \<Longrightarrow> insert_by comparer x ys = ys @ [x]"
  by (induction ys) auto

lemma entries_from_set:
  "e \<in> set (entries_from its i vs) \<Longrightarrow>
     val e \<in> set vs \<and> criteria e = map (\<lambda>it. apply_iteratee it (val e)) its"
  by (induction its i vs rule: entries_from.induct) auto

lemma val_entries_from: "map val (entries_from its i vs) = vs"
  by (induction its i vs rule: entries_from.induct) auto

lemma array_sort_entries_rev:
  "distinct (pre @ vs) \<Longrightarrow>
   array_sort (\<lambda>object other. compareMultiple object other [])
     (entries_from (map Matches (pre @ vs)) i vs)
   = rev (entries_from (map Matches (pre @ vs)) i vs)"
proof (induction vs arbitrary: pre i)
  case Nil
  then show ?case by simp
next
  case (Cons v vs)
  let ?its = "map Matches (pre @ v # vs)"
  let ?cmp = "\<lambda>object other. compareMultiple object other []"
  let ?e = "\<lparr>criteria = map (\<lambda>it. apply_iteratee it v) ?its, index = i, val = v\<rparr>"
  from Cons.prems have d: "distinct ((pre @ [v]) @ vs)" by simp
  have ih: "array_sort ?cmp (entries_from ?its (i + 1) vs) = rev (entries_from ?its (i + 1) vs)"
    using Cons.IH [OF d, of "i + 1"] by simp
  have later: "0 < ?cmp ?e e" if "e \<in> set (entries_from ?its (i + 1) vs)" for e
  proof -
    from entries_from_set [OF that]
    have w: "val e \<in> set vs" and c: "criteria e = map (\<lambda>it. apply_iteratee it (val e)) ?its"
      by simp_all
    from Cons.prems w have "v \<notin> set pre" "val e \<notin> set pre" "val e \<noteq> v" by auto
    from loop_first_wins [OF this, of vs] c show ?thesis
      by (simp add: compareMultiple_def)
  qed
  have "\<forall>y \<in> set (rev (entries_from ?its (i + 1) vs)). 0 < ?cmp ?e y"
    unfolding set_rev using later by blast
  then have "insert_by ?cmp ?e (rev (entries_from ?its (i + 1) vs))
        = rev (entries_from ?its (i + 1) vs) @ [?e]"
    by (rule insert_by_last)
  with ih show ?case by simp
qed

text \<open>
  With a truthy \<open>guard\<close> and the roster itself as iteratees, \<open>orderBy\<close> reverses a roster of
  pairwise different characters, whatever their initiative and dexterity.
\<close>

lemma orderBy_distinct_rev:
  assumes "distinct xs"
  shows "orderBy xs xs orders (Some g) = rev xs"
proof (cases "xs = []")
  case True
  then show ?thesis by (simp add: orderBy_def baseOrderBy_def baseSortBy_def)
next
  case False
  from assms have "distinct ([] @ xs)" by simp
  from array_sort_entries_rev [OF this, of 0] False show ?thesis
    by (simp add: orderBy_def baseOrderBy_def baseSortBy_def rev_map [symmetric] val_entries_from)
qed

lemma sortTracker_distinct:
  "distinct (characters s) \<Longrightarrow> sortTracker s = s\<lparr>characters := rev (characters s)\<rparr>"
  by (simp add: sortTracker_def orderBy_distinct_rev)

lemma sortTracker_round_turn: "round (sortTracker s) = round s \<and> turn (sortTracker s) = turn s"
  by (simp add: sortTracker_def)

subsection \<open>Lookups and removal\<close>

lemma find_first_None_iff: "find_first P xs = None \<longleftrightarrow> (\<forall>x \<in> set xs. \<not> P x)"
  by (induction xs) auto

lemma characterExists_iff: "characterExists s n \<longleftrightarrow> n \<in> name ` set (characters s)"
  by (auto simp: characterExists_def find_first_None_iff matches_name_def)

lemma findIndex_nonneg_iff: "0 \<le> findIndex P xs \<longleftrightarrow> (\<exists>x \<in> set xs. P x)"
  by (induction xs) (auto simp: Let_def)

lemma findIndex_less_length: "findIndex P xs < int (length xs)"
  by (induction xs) (auto simp: Let_def)

lemma findIndex_first:
  "\<exists>x \<in> set xs. P x \<Longrightarrow> P (xs ! nat (findIndex P xs)) \<and> (\<forall>j < nat (findIndex P xs). \<not> P (xs ! j))"
proof (induction xs)
  case Nil
  then show ?case by simp
next
  case (Cons x xs)
  show ?case
  proof (cases "P x")
    case True
    then show ?thesis by simp
  next
    case False
    with Cons.prems have ex: "\<exists>x \<in> set xs. P x" by simp
    then have nn: "0 \<le> findIndex P xs" by (simp add: findIndex_nonneg_iff)
    then have n: "nat (findIndex P xs + 1) = Suc (nat (findIndex P xs))" by simp
    from Cons.IH [OF ex] False nn show ?thesis
      by (auto simp: Let_def n less_Suc_eq_0_disj)
  qed
qed

lemma remove_all_filter: "remove_all P xs = filter (\<lambda>x. \<not> P x) xs"
  by (induction xs) auto

lemma remove_all_once:
  "length (filter P xs) = 1 \<Longrightarrow> remove_all P xs = remove_at (nat (findIndex P xs)) xs"
proof (induction xs)
  case Nil
  then show ?case by simp
next
  case (Cons x xs)
  show ?case
  proof (cases "P x")
    case True
    with Cons.prems have "filter P xs = []" by simp
    then have "filter (\<lambda>x. \<not> P x) xs = xs" by (simp add: filter_empty_conv)
    with True show ?thesis by (simp add: remove_all_filter remove_at_def)
  next
    case False
    with Cons.prems have one: "length (filter P xs) = 1" by simp
    then have "filter P xs \<noteq> []" by auto
    then have "\<exists>x \<in> set xs. P x" by (simp add: filter_empty_conv)
    then have nn: "0 \<le> findIndex P xs" by (simp add: findIndex_nonneg_iff)
    then have n: "nat (findIndex P xs + 1) = Suc (nat (findIndex P xs))" by simp
    from Cons.IH [OF one] False nn show ?thesis
      by (simp add: Let_def n remove_at_def)
  qed
qed

lemma held_once_exists: "held_once n (characters s) \<Longrightarrow> characterExists s n"
proof -
  assume "held_once n (characters s)"
  then have "filter (matches_name n) (characters s) \<noteq> []" by (auto simp: held_once_def)
  then show ?thesis
    by (simp add: characterExists_def find_first_None_iff filter_empty_conv)
qed

subsection \<open>\<^verbatim>\<open>removeCharacter\<close>\<close>

text \<open>
  For a name that some character holds, with \<open>i\<close> the index of the first character of
  that name, \<open>t\<close> the turn and \<open>n\<close> the number of characters before the call:
  \<^verbatim>\<open>removeCharacter(name)\<close> completes, every character of that name is gone from the roster
  and the others keep their order, and the turn and the round follow the four cases of
  the source.
\<close>

lemma removeCharacter_general:
  assumes ex: "characterExists s n"
  defines "i \<equiv> findIndex (matches_name n) (characters s)"
  defines "s' \<equiv> snd (removeCharacter n s)"
  shows "getCharacterIndex s n = Inr i \<and> 0 \<le> i \<and> i < characterCount s
    \<and> name (characters s ! nat i) = n
    \<and> fst (removeCharacter n s) = Inr ()
    \<and> characters s' = remove_all (matches_name n) (characters s)
    \<and> (i < turn s \<longrightarrow> turn s' = turn s - 1 \<and> round s' = round s)
    \<and> (i = turn s \<and> i = characterCount s - 1 \<longrightarrow> round s' = round s + 1 \<and> turn s' = 0)
    \<and> (i = turn s \<and> i < characterCount s - 1 \<longrightarrow> turn s' = turn s \<and> round s' = round s)
    \<and> (turn s < i \<longrightarrow> turn s' = turn s \<and> round s' = round s)"
proof -
  from ex have ex': "\<exists>x \<in> set (characters s). matches_name n x"
    by (simp add: characterExists_def find_first_None_iff)
  have idx: "getCharacterIndex s n = Inr i" using ex by (simp add: getCharacterIndex_def i_def)
  have lo: "0 \<le> i" using ex' by (simp add: i_def findIndex_nonneg_iff)
  have hi: "i < characterCount s" by (simp add: i_def characterCount_def findIndex_less_length)
  have "matches_name n (characters s ! nat i)"
    using findIndex_first [OF ex'] by (simp add: i_def)
  then have nm: "name (characters s ! nat i) = n" by (simp add: matches_name_def)
  have ok: "fst (removeCharacter n s) = Inr ()"
    using ex idx by (simp add: removeCharacter_def Let_def)
  have chars: "characters s' = remove_all (matches_name n) (characters s)"
    using ex idx by (simp add: s'_def removeCharacter_def Let_def)
  have c1: "i < turn s \<longrightarrow> turn s' = turn s - 1 \<and> round s' = round s"
    using ex idx by (simp add: s'_def removeCharacter_def Let_def)
  have c2: "i = turn s \<and> i = characterCount s - 1 \<longrightarrow> round s' = round s + 1 \<and> turn s' = 0"
    using ex idx by (simp add: s'_def removeCharacter_def Let_def)
  have c3: "i = turn s \<and> i < characterCount s - 1 \<longrightarrow> turn s' = turn s \<and> round s' = round s"
    using ex idx by (simp add: s'_def removeCharacter_def Let_def)
  have c4: "turn s < i \<longrightarrow> turn s' = turn s \<and> round s' = round s"
    using ex idx by (simp add: s'_def removeCharacter_def Let_def)
  from idx lo hi nm ok chars c1 c2 c3 c4 show ?thesis by blast
qed

text \<open>
  When exactly one character holds the name, the roster afterwards is the roster without
  position \<open>i\<close>.
\<close>

lemma removeCharacter_single:
  assumes once: "held_once n (characters s)"
  shows "characters (snd (removeCharacter n s))
    = remove_at (nat (findIndex (matches_name n) (characters s))) (characters s)"
proof -
  from once have ex: "characterExists s n" by (rule held_once_exists)
  have "remove_all (matches_name n) (characters s)
      = remove_at (nat (findIndex (matches_name n) (characters s))) (characters s)"
    using once by (simp add: held_once_def remove_all_once)
  with removeCharacter_general [OF ex] show ?thesis by simp
qed

text \<open>
  The four cases on the roster Ann, Bob, Cat, Dan, where every name is held once: Ann
  removed while it is Cat's turn, Dan removed while it is Cat's turn, Cat removed on her
  own turn, and Dan removed on his own turn as the last in order.
\<close>

lemma removeCharacter_four_cases:
  "snd (removeCharacter ''Ann'' \<lparr>round = 1, turn = 2, characters = [ann, bob, cat, dan]\<rparr>)
       = \<lparr>round = 1, turn = 1, characters = [bob, cat, dan]\<rparr>
   \<and> snd (removeCharacter ''Dan'' \<lparr>round = 1, turn = 2, characters = [ann, bob, cat, dan]\<rparr>)
       = \<lparr>round = 1, turn = 2, characters = [ann, bob, cat]\<rparr>
   \<and> snd (removeCharacter ''Cat'' \<lparr>round = 1, turn = 2, characters = [ann, bob, cat, dan]\<rparr>)
       = \<lparr>round = 1, turn = 2, characters = [ann, bob, dan]\<rparr>
   \<and> snd (removeCharacter ''Dan'' \<lparr>round = 1, turn = 3, characters = [ann, bob, cat, dan]\<rparr>)
       = \<lparr>round = 2, turn = 0, characters = [ann, bob, cat]\<rparr>"
  by (simp add: removeCharacter_def getCharacterIndex_def characterExists_def characterCount_def
      matches_name_def examples)

text \<open>
  Claim C2, at the state that the calls add Ann, add Bob, add Dan, next turn, rename Dan
  to Bob leave: the roster Ann, Bob, Bob with the turn at index 1. \<^verbatim>\<open>removeCharacter("Bob")\<close>
  finds index 1, which is the turn and not the last index, so the turn and the round
  stay; and it removes both characters named Bob, where the roster without the
  character at index 1 is Ann followed by the second Bob.
\<close>

theorem removeCharacter_removes_every_namesake:
  "run_all
     [AddCharacter ''u1'' ''Ann'' 20 12, AddCharacter ''u2'' ''Bob'' 15 14,
      AddCharacter ''u4'' ''Dan'' 8 16, NextTurn, EditCharacter ''Dan'' ''Bob'' 8 16] defaults
     = \<lparr>round = 0, turn = 1, characters = [ann, bob, dan_as_bob]\<rparr>
   \<and> characterExists \<lparr>round = 0, turn = 1, characters = [ann, bob, dan_as_bob]\<rparr> ''Bob''
   \<and> getCharacterIndex \<lparr>round = 0, turn = 1, characters = [ann, bob, dan_as_bob]\<rparr> ''Bob'' = Inr 1
   \<and> removeCharacter ''Bob'' \<lparr>round = 0, turn = 1, characters = [ann, bob, dan_as_bob]\<rparr>
       = (Inr (), \<lparr>round = 0, turn = 1, characters = [ann]\<rparr>)
   \<and> remove_at 1 [ann, bob, dan_as_bob] = [ann, dan_as_bob]
   \<and> [ann] \<noteq> [ann, dan_as_bob]"
  by (simp add: defaults_def addCharacter_def editCharacter_def nextTurn_def removeCharacter_def
      getCharacterIndex_def characterExists_def characterCount_def matches_name_def remove_at_def
      examples)

subsection \<open>\<^verbatim>\<open>addCharacter\<close>\<close>

text \<open>
  Claim C5. \<^verbatim>\<open>addCharacter(userID, n, initiative, dexterity)\<close> fails with \<open>DuplicateError\<close>
  exactly when a character named \<open>n\<close> exists (and then changes nothing); otherwise it
  completes, the roster afterwards is the old roster, in its order, followed by the new
  character, the turn and the round are unchanged, and \<^verbatim>\<open>characterExists(n)\<close> holds.
\<close>

theorem addCharacter_appends:
  "(fst (addCharacter uid n ini dex s) = Inl DuplicateError \<longleftrightarrow> characterExists s n)
   \<and> (characterExists s n \<longrightarrow> snd (addCharacter uid n ini dex s) = s)
   \<and> (\<not> characterExists s n \<longrightarrow>
        fst (addCharacter uid n ini dex s) = Inr ()
        \<and> characters (snd (addCharacter uid n ini dex s))
            = characters s @ [\<lparr>userID = uid, name = n, initiative = ini, dexterity = dex\<rparr>]
        \<and> turn (snd (addCharacter uid n ini dex s)) = turn s
        \<and> round (snd (addCharacter uid n ini dex s)) = round s
        \<and> characterExists (snd (addCharacter uid n ini dex s)) n)"
  by (simp add: addCharacter_def characterExists_iff)

text \<open>Cat joins Ann and Bob; a second Cat is refused.\<close>

theorem addCharacter_appends_witness:
  "\<not> characterExists \<lparr>round = 1, turn = 1, characters = [ann, bob]\<rparr> ''Cat''
   \<and> addCharacter ''u3'' ''Cat'' 15 10 \<lparr>round = 1, turn = 1, characters = [ann, bob]\<rparr>
       = (Inr (), \<lparr>round = 1, turn = 1, characters = [ann, bob, cat]\<rparr>)
   \<and> characterExists \<lparr>round = 1, turn = 1, characters = [ann, bob, cat]\<rparr> ''Cat''
   \<and> addCharacter ''u9'' ''Cat'' 1 1 \<lparr>round = 1, turn = 1, characters = [ann, bob, cat]\<rparr>
       = (Inl DuplicateError, \<lparr>round = 1, turn = 1, characters = [ann, bob, cat]\<rparr>)"
proof -
  let ?s = "\<lparr>round = 1, turn = 1, characters = [ann, bob]\<rparr>"
  let ?s' = "\<lparr>round = 1, turn = 1, characters = [ann, bob, cat]\<rparr>"
  have no: "\<not> characterExists ?s ''Cat''"
    by (simp add: characterExists_def matches_name_def examples)
  have yes: "characterExists ?s' ''Cat''"
    by (simp add: characterExists_def matches_name_def examples)
  have 1: "addCharacter ''u3'' ''Cat'' 15 10 ?s = (Inr (), ?s')"
    using addCharacter_appends [of "''u3''" "''Cat''" 15 10 ?s] no
    by (intro prod_eqI tracker.equality) (simp_all add: cat_def)
  have 2: "addCharacter ''u9'' ''Cat'' 1 1 ?s' = (Inl DuplicateError, ?s')"
    using addCharacter_appends [of "''u9''" "''Cat''" 1 1 ?s'] yes
    by (intro prod_eqI) simp_all
  from no yes 1 2 show ?thesis by blast
qed

subsection \<open>Failing calls\<close>

text \<open>
  Claim C6. \<^verbatim>\<open>removeCharacter(n)\<close> for a name that no character has fails with
  \<open>NotFoundError\<close> and leaves the round, the turn and the roster as they were; and whatever
  the call, if it fails the state after it is the state before it.
\<close>

theorem failure_changes_nothing:
  "(\<not> characterExists s n \<longrightarrow> removeCharacter n s = (Inl NotFoundError, s))
   \<and> (\<forall>c e. fst (run c s) = Inl e \<longrightarrow> snd (run c s) = s)"
proof -
  have "snd (run c s) = s" if "fst (run c s) = Inl e" for c e
    using that
    by (cases c)
      (auto simp: addCharacter_def editCharacter_def removeCharacter_def getCharacterIndex_def
        Let_def split: if_splits)
  then show ?thesis by (simp add: removeCharacter_def)
qed

text \<open>Nobody is called Zed: removing, editing Zed and adding a second Ann all fail.\<close>

theorem failure_changes_nothing_witness:
  "\<not> characterExists \<lparr>round = 3, turn = 1, characters = [ann, bob]\<rparr> ''Zed''
   \<and> removeCharacter ''Zed'' \<lparr>round = 3, turn = 1, characters = [ann, bob]\<rparr>
       = (Inl NotFoundError, \<lparr>round = 3, turn = 1, characters = [ann, bob]\<rparr>)
   \<and> fst (run (EditCharacter ''Zed'' ''Zoe'' 1 1) \<lparr>round = 3, turn = 1, characters = [ann, bob]\<rparr>)
       = Inl NotFoundError
   \<and> snd (run (EditCharacter ''Zed'' ''Zoe'' 1 1) \<lparr>round = 3, turn = 1, characters = [ann, bob]\<rparr>)
       = \<lparr>round = 3, turn = 1, characters = [ann, bob]\<rparr>
   \<and> fst (run (AddCharacter ''u9'' ''Ann'' 1 1) \<lparr>round = 3, turn = 1, characters = [ann, bob]\<rparr>)
       = Inl DuplicateError
   \<and> snd (run (AddCharacter ''u9'' ''Ann'' 1 1) \<lparr>round = 3, turn = 1, characters = [ann, bob]\<rparr>)
       = \<lparr>round = 3, turn = 1, characters = [ann, bob]\<rparr>"
proof -
  let ?s = "\<lparr>round = 3, turn = 1, characters = [ann, bob]\<rparr>"
  have no: "\<not> characterExists ?s ''Zed''"
    by (simp add: characterExists_def matches_name_def examples)
  have e: "fst (run (EditCharacter ''Zed'' ''Zoe'' 1 1) ?s) = Inl NotFoundError"
    using no by (simp add: editCharacter_def)
  have a: "fst (run (AddCharacter ''u9'' ''Ann'' 1 1) ?s) = Inl DuplicateError"
    by (simp add: addCharacter_def characterExists_def matches_name_def examples)
  note t = failure_changes_nothing [of ?s "''Zed''"]
  from t no have 1: "removeCharacter ''Zed'' ?s = (Inl NotFoundError, ?s)" by blast
  from t e have 2: "snd (run (EditCharacter ''Zed'' ''Zoe'' 1 1) ?s) = ?s" by blast
  from t a have 3: "snd (run (AddCharacter ''u9'' ''Ann'' 1 1) ?s) = ?s" by blast
  from no 1 e 2 a 3 show ?thesis by blast
qed

subsection \<open>\<^verbatim>\<open>reset\<close>\<close>

text \<open>
  Claim C9. After \<^verbatim>\<open>reset(true)\<close> the character count, the round and the turn are 0;
  \<^verbatim>\<open>reset(false)\<close> keeps the roster as it was and sets the round and the turn to 0.
\<close>

theorem reset_zeroes:
  "characterCount (reset True s) = 0 \<and> round (reset True s) = 0 \<and> turn (reset True s) = 0
   \<and> characters (reset False s) = characters s
   \<and> round (reset False s) = 0 \<and> turn (reset False s) = 0"
  by (simp add: reset_def characterCount_def)

subsection \<open>\<^verbatim>\<open>nextTurn\<close> on an empty roster\<close>




subsection \<open>\<^verbatim>\<open>editCharacter\<close>\<close>

lemma assign_first_update:
  "\<exists>x \<in> set xs. P x \<Longrightarrow>
   assign_first P f xs = xs[nat (findIndex P xs) := f (xs ! nat (findIndex P xs))]"
proof (induction xs)
  case Nil
  then show ?case by simp
next
  case (Cons x xs)
  show ?case
  proof (cases "P x")
    case True
    then show ?thesis by simp
  next
    case False
    with Cons.prems have ex: "\<exists>x \<in> set xs. P x" by simp
    then have nn: "0 \<le> findIndex P xs" by (simp add: findIndex_nonneg_iff)
    then have n: "nat (findIndex P xs + 1) = Suc (nat (findIndex P xs))" by simp
    from Cons.IH [OF ex] False nn show ?thesis by (simp add: Let_def n)
  qed
qed

text \<open>
  Claim C7. If no character is named \<open>n\<close>, \<^verbatim>\<open>editCharacter(n, newname, initiative, dexterity)\<close>
  fails with \<open>NotFoundError\<close>. Otherwise it completes, whatever \<open>newname\<close> is (no check is
  made that the new name is free): with \<open>i\<close> the index of the first character named \<open>n\<close>,
  the roster afterwards is the old roster with the name, initiative and dexterity of the
  character at \<open>i\<close> overwritten (so the same length, the same character at every other
  index, and the owner kept), and the turn and the round are unchanged.
\<close>

theorem editCharacter_in_place:
  "(\<not> characterExists s n \<longrightarrow>
      editCharacter n newname ini dex s = (Inl NotFoundError, s))
   \<and> (characterExists s n \<longrightarrow>
      getCharacterIndex s n = Inr (findIndex (matches_name n) (characters s))
      \<and> 0 \<le> findIndex (matches_name n) (characters s)
      \<and> findIndex (matches_name n) (characters s) < characterCount s
      \<and> name (characters s ! nat (findIndex (matches_name n) (characters s))) = n
      \<and> fst (editCharacter n newname ini dex s) = Inr ()
      \<and> characters (snd (editCharacter n newname ini dex s))
          = (characters s)[nat (findIndex (matches_name n) (characters s)) :=
              (characters s ! nat (findIndex (matches_name n) (characters s)))
                \<lparr>name := newname, initiative := ini, dexterity := dex\<rparr>]
      \<and> turn (snd (editCharacter n newname ini dex s)) = turn s
      \<and> round (snd (editCharacter n newname ini dex s)) = round s)"
proof (cases "characterExists s n")
  case False
  then show ?thesis by (simp add: editCharacter_def)
next
  case True
  then have ex: "\<exists>x \<in> set (characters s). matches_name n x"
    by (simp add: characterExists_def find_first_None_iff)
  let ?i = "findIndex (matches_name n) (characters s)"
  have "matches_name n (characters s ! nat ?i)"
    using findIndex_first [OF ex] by simp
  then have nm: "name (characters s ! nat ?i) = n" by (simp add: matches_name_def)
  have lo: "0 \<le> ?i" using ex by (simp add: findIndex_nonneg_iff)
  have hi: "?i < characterCount s" by (simp add: characterCount_def findIndex_less_length)
  from True nm lo hi assign_first_update [OF ex] show ?thesis
    by (simp add: editCharacter_def getCharacterIndex_def)
qed

text \<open>
  Bob, second of Ann, Bob, Cat, is renamed to Rob in place; renaming Cat to Ann, a name
  in use, completes as well and leaves two characters named Ann; editing Zed fails.
\<close>

theorem editCharacter_in_place_witness:
  "characterExists \<lparr>round = 1, turn = 2, characters = [ann, bob, cat]\<rparr> ''Bob''
   \<and> editCharacter ''Bob'' ''Rob'' 3 4 \<lparr>round = 1, turn = 2, characters = [ann, bob, cat]\<rparr>
       = (Inr (), \<lparr>round = 1, turn = 2, characters =
           [ann, \<lparr>userID = ''u2'', name = ''Rob'', initiative = 3, dexterity = 4\<rparr>, cat]\<rparr>)
   \<and> characterExists \<lparr>round = 1, turn = 2, characters = [ann, bob, cat]\<rparr> ''Cat''
   \<and> characterExists \<lparr>round = 1, turn = 2, characters = [ann, bob, cat]\<rparr> ''Ann''
   \<and> editCharacter ''Cat'' ''Ann'' 15 10 \<lparr>round = 1, turn = 2, characters = [ann, bob, cat]\<rparr>
       = (Inr (), \<lparr>round = 1, turn = 2, characters =
           [ann, bob, \<lparr>userID = ''u3'', name = ''Ann'', initiative = 15, dexterity = 10\<rparr>]\<rparr>)
   \<and> \<not> characterExists \<lparr>round = 1, turn = 2, characters = [ann, bob, cat]\<rparr> ''Zed''
   \<and> editCharacter ''Zed'' ''Zoe'' 1 1 \<lparr>round = 1, turn = 2, characters = [ann, bob, cat]\<rparr>
       = (Inl NotFoundError, \<lparr>round = 1, turn = 2, characters = [ann, bob, cat]\<rparr>)"
proof -
  let ?s = "\<lparr>round = 1, turn = 2, characters = [ann, bob, cat]\<rparr>"
  have b: "characterExists ?s ''Bob''" and c: "characterExists ?s ''Cat''"
    and a: "characterExists ?s ''Ann''" and z: "\<not> characterExists ?s ''Zed''"
    by (simp_all add: characterExists_def matches_name_def examples)
  have 1: "editCharacter ''Bob'' ''Rob'' 3 4 ?s = (Inr (), \<lparr>round = 1, turn = 2, characters =
           [ann, \<lparr>userID = ''u2'', name = ''Rob'', initiative = 3, dexterity = 4\<rparr>, cat]\<rparr>)"
    using editCharacter_in_place [of ?s "''Bob''" "''Rob''" 3 4] b
    by (intro prod_eqI tracker.equality) (simp_all add: matches_name_def examples)
  have 2: "editCharacter ''Cat'' ''Ann'' 15 10 ?s = (Inr (), \<lparr>round = 1, turn = 2, characters =
           [ann, bob, \<lparr>userID = ''u3'', name = ''Ann'', initiative = 15, dexterity = 10\<rparr>]\<rparr>)"
    using editCharacter_in_place [of ?s "''Cat''" "''Ann''" 15 10] c
    by (intro prod_eqI tracker.equality) (simp_all add: matches_name_def examples)
  have 3: "editCharacter ''Zed'' ''Zoe'' 1 1 ?s = (Inl NotFoundError, ?s)"
    using editCharacter_in_place [of ?s "''Zed''" "''Zoe''" 1 1] z by blast
  from a b c z 1 2 3 show ?thesis by blast
qed

subsection \<open>\<^verbatim>\<open>sortTracker\<close> and \<^verbatim>\<open>nextTurn\<close>\<close>

lemmas orderBy_defs = orderBy_def baseOrderBy_def baseSortBy_def compareMultiple_def matches_def

text \<open>
  Claim C1, at the roster Ann (20, 12), Bob (15, 14), Cat (15, 10), Dan (8, 16), which is in
  turn order. \<^verbatim>\<open>sortTracker()\<close> leaves the round and the turn as they were and returns the
  roster reversed, lowest initiative first, which is not in turn order.
\<close>

theorem sortTracker_reverses_sorted_roster:
  "in_turn_order [ann, bob, cat, dan]
   \<and> sortTracker \<lparr>round = 2, turn = 1, characters = [ann, bob, cat, dan]\<rparr>
       = \<lparr>round = 2, turn = 1, characters = [dan, cat, bob, ann]\<rparr>
   \<and> \<not> in_turn_order [dan, cat, bob, ann]"
  by (simp add: sortTracker_def orderBy_defs in_turn_order_def goes_before_def examples)

lemma nextTurn_advance:
  "turn s < characterCount s - 1 \<Longrightarrow> nextTurn s = s\<lparr>turn := turn s + 1\<rparr>"
  by (simp add: nextTurn_def)

lemma nextTurn_wrap:
  "\<not> turn s < characterCount s - 1 \<Longrightarrow>
     turn (nextTurn s) = 0 \<and> round (nextTurn s) = round s + 1"
  by (simp add: nextTurn_def sortTracker_def)

lemma nextTurn_wrap_distinct:
  "\<not> turn s < characterCount s - 1 \<Longrightarrow> distinct (characters s) \<Longrightarrow>
     characters (nextTurn s) = rev (characters s)"
  by (simp add: nextTurn_def sortTracker_distinct)

text \<open>
  Claim C3, at the roster Ann (20, 12), Bob (15, 14), Dan (8, 16), which is in turn order,
  with the turn on the last character. \<^verbatim>\<open>nextTurn()\<close> sets the turn to 0 and
  increments the round, and the roster it leaves is Dan, Bob, Ann: reversed, and not in
  turn order.
\<close>

theorem nextTurn_wrap_reverses_roster:
  "nextTurn \<lparr>round = 1, turn = 2, characters = [ann, bob, dan]\<rparr>
     = \<lparr>round = 2, turn = 0, characters = [dan, bob, ann]\<rparr>
   \<and> in_turn_order [ann, bob, dan]
   \<and> \<not> in_turn_order [dan, bob, ann]"
  by (simp add: nextTurn_def characterCount_def sortTracker_def orderBy_defs in_turn_order_def
      goes_before_def examples)

text \<open>
  Claim C8, at the roster Bob, Eve, who have the same initiative and the same dexterity.
  One \<^verbatim>\<open>sortTracker()\<close> puts Eve before Bob, so the two do not keep their order; a second
  one puts Bob before Eve again, so sorting twice is not sorting once.
\<close>

theorem sortTracker_twice_differs:
  "initiative bob = initiative eve \<and> dexterity bob = dexterity eve
   \<and> characters (sortTracker \<lparr>round = 0, turn = 0, characters = [bob, eve]\<rparr>) = [eve, bob]
   \<and> characters (sortTracker (sortTracker \<lparr>round = 0, turn = 0, characters = [bob, eve]\<rparr>))
       = [bob, eve]
   \<and> [eve, bob] \<noteq> [bob, eve]"
  by (simp add: sortTracker_def orderBy_defs examples)

lemma sortTracker_twice_distinct:
  "distinct (characters s) \<Longrightarrow> sortTracker (sortTracker s) = s"
  by (simp add: sortTracker_distinct)

subsection \<open>The turn index\<close>

text \<open>
  Claim C4, at the calls: add Ann, add Bob, add Dan, next turn (it is Bob's turn, index
  1), rename Dan to Bob, remove Bob. None of the calls is a setter. The last call finds
  Bob at the turn index, which is not the last index, and removes both characters named
  Bob: one character is left and the turn is still 1.
\<close>

theorem turn_out_of_range_after_duplicate_removal:
  "list_all (\<lambda>c. \<not> escape_hatch c)
     [AddCharacter ''u1'' ''Ann'' 20 12, AddCharacter ''u2'' ''Bob'' 15 14,
      AddCharacter ''u4'' ''Dan'' 8 16, NextTurn, EditCharacter ''Dan'' ''Bob'' 8 16,
      RemoveCharacter ''Bob'']
   \<and> run_all
     [AddCharacter ''u1'' ''Ann'' 20 12, AddCharacter ''u2'' ''Bob'' 15 14,
      AddCharacter ''u4'' ''Dan'' 8 16, NextTurn, EditCharacter ''Dan'' ''Bob'' 8 16,
      RemoveCharacter ''Bob''] defaults
     = \<lparr>round = 0, turn = 1, characters = [ann]\<rparr>
   \<and> 0 < characterCount \<lparr>round = 0, turn = 1, characters = [ann]\<rparr>
   \<and> \<not> turn \<lparr>round = 0, turn = 1, characters = [ann]\<rparr>
        < characterCount \<lparr>round = 0, turn = 1, characters = [ann]\<rparr>"
  by (simp add: defaults_def addCharacter_def editCharacter_def removeCharacter_def
      getCharacterIndex_def nextTurn_def characterExists_def characterCount_def matches_name_def
      examples)

text \<open>
  The calls above include an edit onto a name in use. Without such an edit the names stay
  pairwise different and the turn index stays in range: the lemmas below show it for every
  state reached from the defaults by calls other than the two setters.
\<close>

lemma distinct_names_once:
  "distinct (map name xs) \<Longrightarrow> n \<in> name ` set xs \<Longrightarrow> length (filter (matches_name n) xs) = 1"
proof (induction xs)
  case Nil
  then show ?case by simp
next
  case (Cons x xs)
  show ?case
  proof (cases "name x = n")
    case True
    with Cons.prems have "n \<notin> name ` set xs" by simp
    then have "\<forall>y \<in> set xs. \<not> matches_name n y"
      by (auto simp: matches_name_def)
    then have none: "filter (matches_name n) xs = []" by (simp add: filter_empty_conv)
    from True have "matches_name n x" by (simp add: matches_name_def)
    with none show ?thesis by simp
  next
    case False
    then have "\<not> matches_name n x" by (simp add: matches_name_def)
    moreover from False Cons.prems have "distinct (map name xs)" "n \<in> name ` set xs"
      by auto
    ultimately show ?thesis using Cons.IH by simp
  qed
qed

lemma length_remove_at: "i < length xs \<Longrightarrow> length (remove_at i xs) = length xs - 1"
  by (simp add: remove_at_def)

lemma distinct_names_remove_all:
  "distinct (map name xs) \<Longrightarrow> distinct (map name (remove_all P xs))"
  by (simp add: remove_all_filter distinct_map_filter)

lemma assign_first_names:
  "distinct (map name xs) \<Longrightarrow> newname = n \<or> newname \<notin> name ` set xs \<Longrightarrow>
   distinct (map name (assign_first (matches_name n)
      (\<lambda>c. c\<lparr>name := newname, initiative := ini, dexterity := dex\<rparr>) xs))
   \<and> name ` set (assign_first (matches_name n)
      (\<lambda>c. c\<lparr>name := newname, initiative := ini, dexterity := dex\<rparr>) xs)
      \<subseteq> insert newname (name ` set xs)"
proof (induction xs)
  case Nil
  then show ?case by simp
next
  case (Cons x xs)
  show ?case
  proof (cases "name x = n")
    case True
    with Cons.prems show ?thesis by (auto simp: matches_name_def)
  next
    case False
    from Cons.prems have "distinct (map name xs)" "newname = n \<or> newname \<notin> name ` set xs"
      by auto
    from Cons.IH [OF this] Cons.prems False show ?thesis
      by (auto simp: matches_name_def)
  qed
qed

lemma length_assign_first: "length (assign_first P f xs) = length xs"
  by (induction xs) auto

lemma addCharacter_well_formed:
  "well_formed s \<Longrightarrow> well_formed (snd (addCharacter uid n ini dex s))"
  by (auto simp: well_formed_def addCharacter_def characterExists_iff turn_in_range_def
      characterCount_def)

lemma editCharacter_well_formed:
  assumes "well_formed s" and "\<not> (newname \<noteq> n \<and> characterExists s newname)"
  shows "well_formed (snd (editCharacter n newname ini dex s))"
proof -
  from assms(2) have "newname = n \<or> newname \<notin> name ` set (characters s)"
    by (auto simp: characterExists_iff)
  with assms(1) assign_first_names [where xs = "characters s" and newname = newname and n = n
      and ini = ini and dex = dex] show ?thesis
    by (simp add: well_formed_def editCharacter_def turn_in_range_def characterCount_def
        length_assign_first)
qed

lemma removeCharacter_well_formed:
  assumes wf: "well_formed s"
  shows "well_formed (snd (removeCharacter n s))"
proof (cases "characterExists s n")
  case False
  with wf show ?thesis by (simp add: removeCharacter_def)
next
  case True
  let ?i = "findIndex (matches_name n) (characters s)"
  let ?rest = "remove_all (matches_name n) (characters s)"
  from True have ex: "\<exists>x \<in> set (characters s). matches_name n x"
    by (simp add: characterExists_def find_first_None_iff)
  have lo: "0 \<le> ?i" using ex by (simp add: findIndex_nonneg_iff)
  have hi: "?i < int (length (characters s))" by (rule findIndex_less_length)
  from wf True have "length (filter (matches_name n) (characters s)) = 1"
    by (simp add: well_formed_def characterExists_iff distinct_names_once)
  then have "?rest = remove_at (nat ?i) (characters s)" by (rule remove_all_once)
  with lo hi have len: "int (length ?rest) = int (length (characters s)) - 1"
    by (simp add: length_remove_at)
  from wf have names: "distinct (map name ?rest)"
    by (simp add: well_formed_def distinct_names_remove_all)
  from wf have t: "0 \<le> turn s" "turn s < int (length (characters s)) \<or> turn s = 0"
    by (simp_all add: well_formed_def turn_in_range_def characterCount_def)
  from True lo hi len names t show ?thesis
    by (auto simp: well_formed_def turn_in_range_def characterCount_def removeCharacter_def
        getCharacterIndex_def Let_def)
qed

lemma sortTracker_well_formed: "well_formed s \<Longrightarrow> well_formed (sortTracker s)"
proof -
  assume wf: "well_formed s"
  then have "distinct (characters s)" by (simp add: well_formed_def distinct_map)
  with wf show ?thesis
    by (simp add: sortTracker_distinct well_formed_def turn_in_range_def characterCount_def
        rev_map [symmetric])
qed

lemma nextTurn_well_formed: "well_formed s \<Longrightarrow> well_formed (nextTurn s)"
proof (cases "turn s < characterCount s - 1")
  case True
  assume "well_formed s"
  with True show ?thesis
    by (simp add: nextTurn_advance well_formed_def turn_in_range_def characterCount_def)
next
  case False
  assume "well_formed s"
  then have "well_formed ((s\<lparr>turn := 0\<rparr>)\<lparr>round := round s + 1\<rparr>)"
    by (simp add: well_formed_def turn_in_range_def characterCount_def)
  then have "well_formed (sortTracker ((s\<lparr>turn := 0\<rparr>)\<lparr>round := round s + 1\<rparr>))"
    by (rule sortTracker_well_formed)
  with False show ?thesis by (simp add: nextTurn_def)
qed

lemma run_well_formed:
  "well_formed s \<Longrightarrow> \<not> escape_hatch c \<Longrightarrow> \<not> edit_collides c s \<Longrightarrow> well_formed (snd (run c s))"
proof (cases c)
  case (EditCharacter n newname ini dex)
  assume "well_formed s" "\<not> edit_collides c s"
  with EditCharacter show ?thesis by (simp add: editCharacter_well_formed)
qed (simp_all add: addCharacter_well_formed removeCharacter_well_formed nextTurn_well_formed
    sortTracker_well_formed,
    simp_all add: well_formed_def turn_in_range_def characterCount_def startCombat_def reset_def)

lemma reachable_well_formed: "reachable s \<Longrightarrow> well_formed s"
proof (induction rule: reachable.induct)
  case start
  show ?case by (simp add: well_formed_def turn_in_range_def defaults_def)
next
  case (step s c)
  then show ?case by (simp add: run_well_formed)
qed

lemma reachable_turn_in_range:
  "reachable s \<Longrightarrow> 0 < characterCount s \<Longrightarrow> 0 \<le> turn s \<and> turn s < characterCount s"
  using reachable_well_formed [of s] by (auto simp: well_formed_def turn_in_range_def)

end
